theory Spec2Isabelle
  imports Main "HOL-Library.Word"
begin

unbundle bit_operations_syntax

section \<open>Debug assertions\<close>

text \<open>
  Modelled from the spec: the macro \<open>ASSERT_ND\<close> is defined in foedus/assert_nd.hpp,
  which is missing; the specification calls it "a debug assertion" that "is not checked at
  runtime" otherwise.  It is compiled to nothing in a release build and aborts the process
  in a debug build when its argument is false.  The build kind is a parameter of every
  function that asserts: \<open>nd = True\<close> is the debug build.  A function that can abort
  returns an option, \<open>None\<close> being the abort.
\<close>

definition ASSERT_ND :: "bool \<Rightarrow> bool \<Rightarrow> bool" where
  "ASSERT_ND nd x = (if nd then x else True)"

section \<open>Thread identifiers (foedus/thread/thread_id.hpp)\<close>

type_synonym ThreadGroupId = "8 word"
type_synonym ThreadLocalOrdinal = "8 word"
type_synonym ThreadId = "16 word"

text \<open>
  The operands of the shifts and of the bitwise operators are promoted to a 32-bit
  \<open>int\<close>; the return statement converts the result to the declared return type.
\<close>

definition compose_thread_id :: "ThreadGroupId \<Rightarrow> ThreadLocalOrdinal \<Rightarrow> ThreadId" where
  "compose_thread_id node local_core =
     ucast (push_bit 8 (ucast node :: 32 word) OR (ucast local_core :: 32 word))"

definition decompose_numa_node :: "ThreadId \<Rightarrow> ThreadGroupId" where
  "decompose_numa_node global_id =
     ucast (drop_bit 8 (ucast global_id :: 32 word) AND 0xFF)"

definition decompose_numa_local_ordinal :: "ThreadId \<Rightarrow> ThreadLocalOrdinal" where
  "decompose_numa_local_ordinal global_id =
     ucast ((ucast global_id :: 32 word) AND 0xFF)"

section \<open>The page version word (foedus/storage/page.hpp)\<close>

text \<open>
  \<open>PageVersion\<close> is a POD struct whose only member is \<open>uint64_t data_\<close>; it is
  modelled by that word.  Bit 0 is the least significant bit.
\<close>

type_synonym PageVersion = "64 word"

definition kPageVersionLockedBit :: "64 word" where
  "kPageVersionLockedBit = push_bit 63 1"
definition kPageVersionInsertingBit :: "64 word" where
  "kPageVersionInsertingBit = push_bit 62 1"
definition kPageVersionSplittingBit :: "64 word" where
  "kPageVersionSplittingBit = push_bit 61 1"
definition kPageVersionDeletedBit :: "64 word" where
  "kPageVersionDeletedBit = push_bit 60 1"
definition kPageVersionHasFosterChildBit :: "64 word" where
  "kPageVersionHasFosterChildBit = push_bit 59 1"
definition kPageVersionIsBorderBit :: "64 word" where
  "kPageVersionIsBorderBit = push_bit 58 1"
definition kPageVersionIsSupremumBit :: "64 word" where
  "kPageVersionIsSupremumBit = push_bit 57 1"
definition kPageVersionInsertionCounterMask :: "64 word" where
  "kPageVersionInsertionCounterMask = 0x01F8000000000000"
definition kPageVersionInsertionCounterShifts :: nat where
  "kPageVersionInsertionCounterShifts = 51"
definition kPageVersionSplitCounterMask :: "64 word" where
  "kPageVersionSplitCounterMask = 0x0007FFFE00000000"
definition kPageVersionSplitCounterShifts :: nat where
  "kPageVersionSplitCounterShifts = 33"
definition kPageVersionKeyCountMask :: "32 word" where
  "kPageVersionKeyCountMask = 0xFFFF0000"
definition kPageVersionKeyCountShifts :: nat where
  "kPageVersionKeyCountShifts = 16"
definition kPageVersionLayerMask :: "32 word" where
  "kPageVersionLayerMask = 0x0000FF00"
definition kPageVersionLayerShifts :: nat where
  "kPageVersionLayerShifts = 8"

text \<open>The two 32-bit masks are zero-extended to 64 bits by the usual conversions.\<close>

definition kPageVersionUnlockMask :: "64 word" where
  "kPageVersionUnlockMask =
     kPageVersionHasFosterChildBit OR kPageVersionIsBorderBit
       OR ucast kPageVersionKeyCountMask OR ucast kPageVersionLayerMask"

definition initialize :: "bool \<Rightarrow> bool \<Rightarrow> bool \<Rightarrow> bool \<Rightarrow> 8 word \<Rightarrow> PageVersion" where
  "initialize locked has_foster_child is_border is_high_fence_supremum layer =
     (let d0 = (0 :: 64 word);
          d1 = (if locked then d0 OR kPageVersionLockedBit else d0);
          d2 = (if has_foster_child then d1 OR kPageVersionHasFosterChildBit else d1);
          d3 = (if is_border then d2 OR kPageVersionIsBorderBit else d2);
          d4 = (if is_high_fence_supremum then d3 OR kPageVersionIsSupremumBit else d3)
      in d4 OR push_bit kPageVersionLayerShifts (ucast layer))"

text \<open>A \<open>uint64_t\<close> converts to \<open>bool\<close> as "is not zero".\<close>

definition is_locked :: "PageVersion \<Rightarrow> bool" where
  "is_locked d = (d AND kPageVersionLockedBit \<noteq> 0)"
definition is_inserting :: "PageVersion \<Rightarrow> bool" where
  "is_inserting d = (d AND kPageVersionInsertingBit \<noteq> 0)"
definition is_splitting :: "PageVersion \<Rightarrow> bool" where
  "is_splitting d = (d AND kPageVersionSplittingBit \<noteq> 0)"
definition is_deleted :: "PageVersion \<Rightarrow> bool" where
  "is_deleted d = (d AND kPageVersionDeletedBit \<noteq> 0)"
definition has_foster_child :: "PageVersion \<Rightarrow> bool" where
  "has_foster_child d = (d AND kPageVersionHasFosterChildBit \<noteq> 0)"
definition is_border :: "PageVersion \<Rightarrow> bool" where
  "is_border d = (d AND kPageVersionIsBorderBit \<noteq> 0)"
definition is_high_fence_supremum :: "PageVersion \<Rightarrow> bool" where
  "is_high_fence_supremum d = (d AND kPageVersionIsSupremumBit \<noteq> 0)"

definition get_insert_counter :: "PageVersion \<Rightarrow> 32 word" where
  "get_insert_counter d =
     ucast (drop_bit kPageVersionInsertionCounterShifts (d AND kPageVersionInsertionCounterMask))"
definition get_split_counter :: "PageVersion \<Rightarrow> 32 word" where
  "get_split_counter d =
     ucast (drop_bit kPageVersionSplitCounterShifts (d AND kPageVersionSplitCounterMask))"
definition get_key_count :: "PageVersion \<Rightarrow> 16 word" where
  "get_key_count d =
     ucast (drop_bit kPageVersionKeyCountShifts (d AND ucast kPageVersionKeyCountMask))"
definition get_layer :: "PageVersion \<Rightarrow> 8 word" where
  "get_layer d =
     ucast (drop_bit kPageVersionLayerShifts (d AND ucast kPageVersionLayerMask))"

definition set_inserting :: "bool \<Rightarrow> PageVersion \<Rightarrow> PageVersion option" where
  "set_inserting nd d =
     (if \<not> ASSERT_ND nd (is_locked d) then None
      else Some (d OR kPageVersionInsertingBit))"

definition increment_key_count :: "bool \<Rightarrow> PageVersion \<Rightarrow> PageVersion option" where
  "increment_key_count nd d =
     (if \<not> ASSERT_ND nd (is_locked d) then None
      else Some (d + push_bit kPageVersionKeyCountShifts 1))"

definition set_inserting_and_increment_key_count ::
    "bool \<Rightarrow> PageVersion \<Rightarrow> PageVersion option" where
  "set_inserting_and_increment_key_count nd d =
     (case set_inserting nd d of
        None \<Rightarrow> None
      | Some d1 \<Rightarrow> Some (d1 + push_bit kPageVersionKeyCountShifts 1))"

definition set_key_count :: "bool \<Rightarrow> PageVersion \<Rightarrow> 8 word \<Rightarrow> PageVersion option" where
  "set_key_count nd d key_count =
     (if \<not> ASSERT_ND nd (is_locked d) then None
      else
        let d1 = (d AND NOT (ucast kPageVersionKeyCountMask))
                   OR push_bit kPageVersionKeyCountShifts (ucast key_count)
        in if \<not> ASSERT_ND nd (get_key_count d1 = ucast key_count) then None
           else Some d1)"

definition set_splitting :: "bool \<Rightarrow> PageVersion \<Rightarrow> PageVersion option" where
  "set_splitting nd d =
     (if \<not> ASSERT_ND nd (is_locked d) then None
      else Some (d OR kPageVersionSplittingBit))"

definition set_has_foster_child :: "bool \<Rightarrow> PageVersion \<Rightarrow> bool \<Rightarrow> PageVersion option" where
  "set_has_foster_child nd d has =
     (if \<not> ASSERT_ND nd (is_locked d) then None
      else if has then Some (d OR kPageVersionHasFosterChildBit)
      else Some (d AND NOT kPageVersionHasFosterChildBit))"

text \<open>
  \<open>unlock_version\<close> reads \<open>data_\<close> once, computes the next word and stores it between
  two release fences; the result is the stored word.
\<close>

definition unlock_version :: "bool \<Rightarrow> PageVersion \<Rightarrow> PageVersion option" where
  "unlock_version nd d =
     (let page_version = d in
      if \<not> ASSERT_ND nd (page_version AND kPageVersionLockedBit \<noteq> 0) then None
      else
        let base = page_version AND kPageVersionUnlockMask;
            insertion_counter0 = page_version AND kPageVersionInsertionCounterMask;
            insertion_counter =
              (if page_version AND kPageVersionInsertingBit \<noteq> 0
               then insertion_counter0 + push_bit kPageVersionInsertionCounterShifts 1
               else insertion_counter0);
            split_counter0 = page_version AND kPageVersionSplitCounterMask;
            split_counter =
              (if page_version AND kPageVersionSplittingBit \<noteq> 0
               then split_counter0 + push_bit kPageVersionSplitCounterShifts 1
               else split_counter0)
        in if \<not> ASSERT_ND nd (insertion_counter AND split_counter = 0) then None
           else Some (base OR insertion_counter OR split_counter))"


text \<open>
  The bit layout as the specification tabulates it (bit 0 is the least significant bit):
  63 locked, 62 inserting, 61 splitting, 60 deleted (unused), 59 has_foster_child,
  58 is_border, 57 is_high_fence_supremum, 51..56 insertion counter, 33..50 split
  counter, 32 unused, 16..31 key count, 8..15 layer, 0..7 unused.  \<open>layout_word\<close>
  builds a word from a field assignment under that table; it follows the table, not the
  code, and is what the getters of the code are compared with.
\<close>

definition layout_word ::
  "bool \<Rightarrow> bool \<Rightarrow> bool \<Rightarrow> bool \<Rightarrow> 8 word \<Rightarrow> 16 word \<Rightarrow> bool \<Rightarrow> bool \<Rightarrow> 6 word \<Rightarrow> 18 word
     \<Rightarrow> PageVersion" where
  "layout_word locked hfc border supremum layer kc inserting splitting ic sc =
     push_bit 63 (of_bool locked) OR push_bit 62 (of_bool inserting)
       OR push_bit 61 (of_bool splitting) OR push_bit 59 (of_bool hfc)
       OR push_bit 58 (of_bool border) OR push_bit 57 (of_bool supremum)
       OR push_bit 51 (ucast ic) OR push_bit 33 (ucast sc)
       OR push_bit 16 (ucast kc) OR push_bit 8 (ucast layer)"


text \<open>
  \<open>stable_version\<close> re-reads \<open>data_\<close> on every turn of its loop while other threads
  may write it, so the model takes the sequence of values the reads return: \<open>obs n\<close>
  is what the read number \<open>n\<close> sees.  The macro \<open>SPINLOCK_WHILE\<close> is defined in
  foedus/compiler.hpp, which is missing; by the specification the function "spins until"
  the word observed is stable, so \<open>SPINLOCK_WHILE(true)\<close> is a loop that only its
  \<open>return\<close> leaves.  The fences do not change the value read.  The loop need not
  end, so the function is partial: \<open>None\<close> is "spins for ever".
\<close>

partial_function (option) stable_version :: "(nat \<Rightarrow> 64 word) \<Rightarrow> nat \<Rightarrow> PageVersion option" where
  "stable_version obs n =
     (let ver = obs n in
      if ver AND (kPageVersionInsertingBit OR kPageVersionSplittingBit) = 0 then Some ver
      else stable_version obs (Suc n))"

section \<open>Fixed-capacity strings (foedus/assorted/fixed_string.hpp)\<close>

text \<open>
  \<open>FixedString<MAXLEN, CHAR>\<close> holds \<open>uint32_t length_\<close> and the array
  \<open>CHAR data_[MAXLEN]\<close>.  A name that ends in an underscore is not a name a term
  of the logic can use, so each member \<open>x_\<close> of a class is the field \<open>x_m\<close> of its
  record.  The template parameter \<open>MAXLEN\<close> (a \<open>uint\<close>) is passed to every
  function; an object of the class has \<open>length data_m = MAXLEN\<close>.  The content of
  \<open>data_m\<close> at \<open>length_m\<close> and beyond is whatever was there before.  A
  constructor runs on uninitialised storage, which is the argument \<open>this\<close> of its
  model.
\<close>

record 'c FixedString =
  length_m :: "32 word"
  data_m :: "'c list"

text \<open>
  \<open>std::memcpy\<close> of \<open>n\<close> elements overwrites the first \<open>n\<close> elements of the
  destination with the first \<open>n\<close> elements of the source.  Reading or writing beyond
  either array is undefined behaviour, modelled as \<open>None\<close>.
\<close>

definition memcpy :: "'c list \<Rightarrow> 'c list \<Rightarrow> nat \<Rightarrow> 'c list option" where
  "memcpy dst src n =
     (if n \<le> length dst \<and> n \<le> length src then Some (take n src @ drop n dst) else None)"

definition FixedString_default :: "'c FixedString \<Rightarrow> 'c FixedString" where
  "FixedString_default this = this\<lparr>length_m := 0\<rparr>"

text \<open>
  The static member \<open>strlen\<close> returns \<open>uint32_t\<close>: the \<open>size_t\<close> result of
  \<open>std::strlen\<close> or \<open>std::wcslen\<close> is truncated to 32 bits.  A C string is
  modelled by the list of its characters before the terminator.
\<close>

definition strlen :: "'c list \<Rightarrow> 32 word" where
  "strlen str = word_of_nat (length str)"

definition assign_fixed ::
    "bool \<Rightarrow> 32 word \<Rightarrow> 'c FixedString \<Rightarrow> 32 word \<Rightarrow> 'c FixedString \<Rightarrow> 'c FixedString option" where
  "assign_fixed nd MAXLEN this MAXLEN2 other =
     (if \<not> ASSERT_ND nd (length_m other < MAXLEN2) then None
      else
        let len = (if length_m other > MAXLEN then MAXLEN else length_m other)
        in case memcpy (data_m this) (data_m other) (unat len) of
             None \<Rightarrow> None
           | Some d \<Rightarrow> Some \<lparr>length_m = len, data_m = d\<rparr>)"

text \<open>
  \<open>str.size()\<close> is a \<open>size_t\<close>, as wide as the address space, and the comparison
  with \<open>MAXLEN\<close> is made at that width; the size of a \<open>std::string\<close> is the length
  of the list.  The value assigned to \<open>length_m\<close> is at most \<open>MAXLEN\<close> or is a size
  that did not exceed \<open>MAXLEN\<close>.
\<close>

definition assign_string :: "32 word \<Rightarrow> 'c FixedString \<Rightarrow> 'c list \<Rightarrow> 'c FixedString option" where
  "assign_string MAXLEN this str =
     (let len = (if length str > unat MAXLEN then MAXLEN else word_of_nat (length str))
      in case memcpy (data_m this) str (unat len) of
           None \<Rightarrow> None
         | Some d \<Rightarrow> Some \<lparr>length_m = len, data_m = d\<rparr>)"

definition assign_ptr ::
    "32 word \<Rightarrow> 'c FixedString \<Rightarrow> 'c list \<Rightarrow> 32 word \<Rightarrow> 'c FixedString option" where
  "assign_ptr MAXLEN this str len =
     (let l = (if len > MAXLEN then MAXLEN else len)
      in case memcpy (data_m this) str (unat l) of
           None \<Rightarrow> None
         | Some d \<Rightarrow> Some \<lparr>length_m = l, data_m = d\<rparr>)"

text \<open>
  The constructor from \<open>FixedString<MAXLEN2, CHAR>\<close> is a template, and a template
  is never a copy constructor.  The class declares no copy constructor of its own, so for
  a source of the same capacity the implicitly declared one is selected: it copies
  \<open>length_\<close> and the whole array \<open>data_\<close> member by member, and asserts nothing.
  The template, which calls \<open>assign\<close>, runs for a source of another capacity.
\<close>

definition FixedString_copy ::
    "bool \<Rightarrow> 32 word \<Rightarrow> 'c FixedString \<Rightarrow> 32 word \<Rightarrow> 'c FixedString \<Rightarrow> 'c FixedString option" where
  "FixedString_copy nd MAXLEN this MAXLEN2 other =
     (if MAXLEN2 = MAXLEN then Some \<lparr>length_m = length_m other, data_m = data_m other\<rparr>
      else assign_fixed nd MAXLEN this MAXLEN2 other)"

definition FixedString_string :: "32 word \<Rightarrow> 'c FixedString \<Rightarrow> 'c list \<Rightarrow> 'c FixedString option" where
  "FixedString_string MAXLEN this str = assign_string MAXLEN this str"

definition FixedString_ptr ::
    "32 word \<Rightarrow> 'c FixedString \<Rightarrow> 'c list \<Rightarrow> 32 word \<Rightarrow> 'c FixedString option" where
  "FixedString_ptr MAXLEN this str len = assign_ptr MAXLEN this str len"

definition FixedString_cstr :: "32 word \<Rightarrow> 'c FixedString \<Rightarrow> 'c list \<Rightarrow> 'c FixedString option" where
  "FixedString_cstr MAXLEN this str = assign_ptr MAXLEN this str (strlen str)"

definition length_fs :: "'c FixedString \<Rightarrow> 32 word" where
  "length_fs this = length_m this"

definition capacity :: "32 word \<Rightarrow> 32 word" where
  "capacity MAXLEN = MAXLEN"

section \<open>The array storage factory (foedus/storage/array/array_storage.cpp)\<close>

text \<open>
  \<open>Metadata\<close> (foedus/storage/metadata.hpp) carries the fields common to all storages.
  Their types are declared in foedus/storage/storage_id.hpp, which is missing; the
  specification gives the identifier as 32 bits, the name as a bounded string and the
  snapshot page pointer as 64 bits.  The type tag \<open>type_\<close> is left out: the dynamic
  type of the object, which is what the factory tests, is the constructor of
  \<open>MetadataObject\<close> below.
\<close>

record Metadata =
  id_m :: "32 word"
  name_m :: string
  root_snapshot_page_id_m :: "64 word"

text \<open>
  Modelled from the spec: the declaration of \<open>ArrayMetadata\<close>
  (foedus/storage/array/array_metadata.hpp) is missing; by the specification
  "ArrayMetadata adds array_size and payload_size".  Both are unsigned integers that the
  factory only compares with zero; they are naturals here.
\<close>

record ArrayMetadata = Metadata +
  payload_size_m :: nat
  array_size_m :: nat

text \<open>
  A \<open>const Metadata*\<close> is null or points to an object whose dynamic type is
  \<open>ArrayMetadata\<close> or another subclass of \<open>Metadata\<close>.
\<close>

datatype MetadataObject = ArrayMetadataObject ArrayMetadata | OtherMetadataObject Metadata

type_synonym MetadataPtr = "MetadataObject option"

fun dynamic_cast_ArrayMetadata :: "MetadataPtr \<Rightarrow> ArrayMetadata option" where
  "dynamic_cast_ArrayMetadata None = None"
| "dynamic_cast_ArrayMetadata (Some (ArrayMetadataObject m)) = Some m"
| "dynamic_cast_ArrayMetadata (Some (OtherMetadataObject b)) = None"

text \<open>
  The two error codes the factory returns.  The enumeration they belong to
  (foedus/error_code.hpp) is missing; in the error taxonomy of the specification they are
  the kinds StorageWrongMetadataType and StorageInvalidOption.
\<close>

datatype ErrorCode = kErrorCodeStrWrongMetadataType | kErrorCodeStrArrayInvalidOption

text \<open>
  Modelled from the spec: the constructor \<open>ArrayStorage(engine, metadata, create)\<close>
  hands its three arguments to \<open>ArrayStoragePimpl\<close>, whose declaration
  (foedus/storage/array/array_storage_pimpl.hpp) is missing; by the specification the
  factory "produces a live storage" for the metadata.  The new object is modelled by the
  arguments it was built from.
\<close>

record 'e ArrayStorage =
  engine_m :: 'e
  metadata_m :: ArrayMetadata
  create_m :: bool

text \<open>
  \<open>get_instance\<close> returns an \<open>ErrorStack\<close> and, on success, stores the new storage
  through its last argument: the model returns \<open>Inl\<close> of the error code, or \<open>Inr\<close>
  of the storage for \<open>kRetOk\<close>.
\<close>

definition get_instance ::
    "bool \<Rightarrow> 'e \<Rightarrow> MetadataPtr \<Rightarrow> (ErrorCode + 'e ArrayStorage) option" where
  "get_instance nd engine metadata =
     (if \<not> ASSERT_ND nd (metadata \<noteq> None) then None
      else case dynamic_cast_ArrayMetadata metadata of
             None \<Rightarrow> Some (Inl kErrorCodeStrWrongMetadataType)
           | Some casted \<Rightarrow>
               if payload_size_m casted = 0 then Some (Inl kErrorCodeStrArrayInvalidOption)
               else if array_size_m casted = 0 then Some (Inl kErrorCodeStrArrayInvalidOption)
               else Some (Inr \<lparr>engine_m = engine, metadata_m = casted, create_m = False\<rparr>))"

definition is_right_metadata :: "MetadataPtr \<Rightarrow> bool" where
  "is_right_metadata metadata = (dynamic_cast_ArrayMetadata metadata \<noteq> None)"

section \<open>Thread identifiers: composition and decomposition\<close>

lemma byte_mask_32: "(0xFF :: 32 word) = mask 8"
  by (simp add: mask_eq_exp_minus_1)

lemma decompose_numa_node_compose:
  "decompose_numa_node (compose_thread_id g l) = g"
  unfolding decompose_numa_node_def compose_thread_id_def byte_mask_32
  by (rule bit_word_eqI) (auto simp add: bit_simps dest: bit_imp_le_length)

lemma decompose_numa_local_ordinal_compose:
  "decompose_numa_local_ordinal (compose_thread_id g l) = l"
  unfolding decompose_numa_local_ordinal_def compose_thread_id_def byte_mask_32
  by (rule bit_word_eqI) (auto simp add: bit_simps)

text \<open>
  C8.  For every node \<open>g\<close> and every local ordinal \<open>l\<close> (both are bytes, so the pair
  ranges over the whole of [0,255] x [0,255]), decomposing the composed thread id gives
  back \<open>g\<close> as the NUMA node and \<open>l\<close> as the local ordinal; and composing node 3 with
  ordinal 17 gives 0x0311.
\<close>

theorem thread_id_roundtrip:
  "decompose_numa_node (compose_thread_id g l) = g
   \<and> decompose_numa_local_ordinal (compose_thread_id g l) = l
   \<and> compose_thread_id 3 17 = 0x0311"
  by (simp add: decompose_numa_node_compose decompose_numa_local_ordinal_compose)
     (simp add: compose_thread_id_def)

section \<open>The page version word, bit by bit\<close>

subsection \<open>The constants\<close>

lemma insertion_counter_mask_eq: "kPageVersionInsertionCounterMask = push_bit 51 (mask 6)"
  by (simp add: kPageVersionInsertionCounterMask_def mask_eq_exp_minus_1)

lemma split_counter_mask_eq: "kPageVersionSplitCounterMask = push_bit 33 (mask 18)"
  by (simp add: kPageVersionSplitCounterMask_def mask_eq_exp_minus_1)

lemma key_count_mask_eq: "(ucast kPageVersionKeyCountMask :: 64 word) = push_bit 16 (mask 16)"
  by (simp add: kPageVersionKeyCountMask_def mask_eq_exp_minus_1)

lemma layer_mask_eq: "(ucast kPageVersionLayerMask :: 64 word) = push_bit 8 (mask 8)"
  by (simp add: kPageVersionLayerMask_def mask_eq_exp_minus_1)

lemma bit_flag: "bit (push_bit k (1 :: 64 word)) n = (n = k \<and> k < 64)"
  by (auto simp add: bit_simps)

lemma bit_kPageVersionLockedBit: "bit kPageVersionLockedBit n = (n = 63)"
  unfolding kPageVersionLockedBit_def by (subst bit_flag) simp

lemma bit_kPageVersionInsertingBit: "bit kPageVersionInsertingBit n = (n = 62)"
  unfolding kPageVersionInsertingBit_def by (subst bit_flag) simp

lemma bit_kPageVersionSplittingBit: "bit kPageVersionSplittingBit n = (n = 61)"
  unfolding kPageVersionSplittingBit_def by (subst bit_flag) simp

lemma bit_kPageVersionHasFosterChildBit: "bit kPageVersionHasFosterChildBit n = (n = 59)"
  unfolding kPageVersionHasFosterChildBit_def by (subst bit_flag) simp

lemma bit_kPageVersionIsBorderBit: "bit kPageVersionIsBorderBit n = (n = 58)"
  unfolding kPageVersionIsBorderBit_def by (subst bit_flag) simp

lemma bit_kPageVersionIsSupremumBit: "bit kPageVersionIsSupremumBit n = (n = 57)"
  unfolding kPageVersionIsSupremumBit_def by (subst bit_flag) simp

lemma bit_kPageVersionInsertionCounterMask:
  "bit kPageVersionInsertionCounterMask n = (51 \<le> n \<and> n < 57)"
  unfolding insertion_counter_mask_eq by (auto simp add: bit_simps)

lemma bit_kPageVersionSplitCounterMask:
  "bit kPageVersionSplitCounterMask n = (33 \<le> n \<and> n < 51)"
  unfolding split_counter_mask_eq by (auto simp add: bit_simps)

lemma bit_kPageVersionKeyCountMask:
  "bit (ucast kPageVersionKeyCountMask :: 64 word) n = (16 \<le> n \<and> n < 32)"
  unfolding key_count_mask_eq by (auto simp add: bit_simps)

lemma bit_kPageVersionLayerMask:
  "bit (ucast kPageVersionLayerMask :: 64 word) n = (8 \<le> n \<and> n < 16)"
  unfolding layer_mask_eq by (auto simp add: bit_simps)

text \<open>The unlock mask keeps bits 59 and 58 and bits 8 to 31, and nothing else.\<close>

lemma bit_kPageVersionUnlockMask:
  "bit kPageVersionUnlockMask n = (n = 59 \<or> n = 58 \<or> 8 \<le> n \<and> n < 32)"
  unfolding kPageVersionUnlockMask_def
  by (auto simp add: bit_or_iff bit_kPageVersionHasFosterChildBit bit_kPageVersionIsBorderBit
      bit_kPageVersionKeyCountMask bit_kPageVersionLayerMask)

lemmas bit_consts = bit_kPageVersionLockedBit bit_kPageVersionInsertingBit
  bit_kPageVersionSplittingBit bit_kPageVersionHasFosterChildBit bit_kPageVersionIsBorderBit
  bit_kPageVersionIsSupremumBit bit_kPageVersionInsertionCounterMask
  bit_kPageVersionSplitCounterMask bit_kPageVersionKeyCountMask bit_kPageVersionLayerMask
  bit_kPageVersionUnlockMask

lemmas k_defs = kPageVersionLockedBit_def kPageVersionInsertingBit_def
  kPageVersionSplittingBit_def kPageVersionDeletedBit_def kPageVersionHasFosterChildBit_def
  kPageVersionIsBorderBit_def kPageVersionIsSupremumBit_def
  kPageVersionInsertionCounterMask_def kPageVersionInsertionCounterShifts_def
  kPageVersionSplitCounterMask_def kPageVersionSplitCounterShifts_def
  kPageVersionKeyCountMask_def kPageVersionKeyCountShifts_def kPageVersionLayerMask_def
  kPageVersionLayerShifts_def kPageVersionUnlockMask_def

lemmas getter_defs = is_locked_def is_inserting_def is_splitting_def is_deleted_def
  has_foster_child_def is_border_def is_high_fence_supremum_def get_insert_counter_def
  get_split_counter_def get_key_count_def get_layer_def

subsection \<open>The getters\<close>

lemma flag_test: "((d :: 64 word) AND k \<noteq> 0) = bit d n" if "\<And>m. bit k m = (m = n)"
proof -
  have "(d AND k = 0) = (\<forall>m. \<not> bit (d AND k) m)"
  proof
    assume "d AND k = 0"
    then show "\<forall>m. \<not> bit (d AND k) m" by simp
  next
    assume "\<forall>m. \<not> bit (d AND k) m"
    then show "d AND k = 0" by (simp add: bit_eq_iff)
  qed
  also have "\<dots> = (\<not> bit d n)"
    by (auto simp add: bit_and_iff that)
  finally show ?thesis by simp
qed

lemma is_locked_bit: "is_locked d = bit d 63"
  unfolding is_locked_def by (rule flag_test) (rule bit_kPageVersionLockedBit)

lemma is_inserting_bit: "is_inserting d = bit d 62"
  unfolding is_inserting_def by (rule flag_test) (rule bit_kPageVersionInsertingBit)

lemma is_splitting_bit: "is_splitting d = bit d 61"
  unfolding is_splitting_def by (rule flag_test) (rule bit_kPageVersionSplittingBit)

lemma has_foster_child_bit: "has_foster_child d = bit d 59"
  unfolding has_foster_child_def by (rule flag_test) (rule bit_kPageVersionHasFosterChildBit)

lemma is_border_bit: "is_border d = bit d 58"
  unfolding is_border_def by (rule flag_test) (rule bit_kPageVersionIsBorderBit)

lemma is_high_fence_supremum_bit: "is_high_fence_supremum d = bit d 57"
  unfolding is_high_fence_supremum_def by (rule flag_test) (rule bit_kPageVersionIsSupremumBit)

lemmas flag_bits = is_locked_bit is_inserting_bit is_splitting_bit has_foster_child_bit
  is_border_bit is_high_fence_supremum_bit

lemma get_insert_counter_bits: "bit (get_insert_counter d) n = (n < 6 \<and> bit d (51 + n))"
  unfolding get_insert_counter_def kPageVersionInsertionCounterShifts_def
  by (auto simp add: bit_ucast_iff bit_drop_bit_eq bit_and_iff
      bit_kPageVersionInsertionCounterMask dest: bit_imp_le_length)

lemma get_split_counter_bits: "bit (get_split_counter d) n = (n < 18 \<and> bit d (33 + n))"
  unfolding get_split_counter_def kPageVersionSplitCounterShifts_def
  by (auto simp add: bit_ucast_iff bit_drop_bit_eq bit_and_iff
      bit_kPageVersionSplitCounterMask dest: bit_imp_le_length)

lemma get_key_count_bits: "bit (get_key_count d) n = (n < 16 \<and> bit d (16 + n))"
  unfolding get_key_count_def kPageVersionKeyCountShifts_def key_count_mask_eq
  by (auto simp add: bit_simps)

lemma get_layer_bits: "bit (get_layer d) n = (n < 8 \<and> bit d (8 + n))"
  unfolding get_layer_def kPageVersionLayerShifts_def layer_mask_eq
  by (auto simp add: bit_simps)

lemmas getter_bits = get_insert_counter_bits get_split_counter_bits get_key_count_bits
  get_layer_bits

subsection \<open>Building a word\<close>

lemma bit_push_of_bool: "bit (push_bit k (of_bool b :: 64 word)) n = (b \<and> n = k \<and> k < 64)"
  by (auto simp add: bit_push_bit_iff bit_of_bool_iff)

lemma bit_push_ucast:
  "bit (push_bit k (ucast (w :: 'a::len word) :: 64 word)) n
     = (k \<le> n \<and> n < k + LENGTH('a) \<and> bit w (n - k))" if "k + LENGTH('a) \<le> 64"
proof (cases "k \<le> n \<and> n < k + LENGTH('a)")
  case True
  with that have "n < 64" by simp
  moreover from this have "n - k < 64" by simp
  ultimately show ?thesis using True by (simp add: bit_push_bit_iff bit_ucast_iff)
next
  case False
  then have "k \<le> n \<Longrightarrow> \<not> bit w (n - k)"
    using bit_imp_le_length [of w "n - k"] by auto
  with False show ?thesis by (auto simp add: bit_push_bit_iff bit_ucast_iff)
qed

lemma layout_word_bits:
  "bit (layout_word l h b s layer kc ins spl ic sc) n =
     (l \<and> n = 63 \<or> ins \<and> n = 62 \<or> spl \<and> n = 61 \<or> h \<and> n = 59 \<or> b \<and> n = 58 \<or> s \<and> n = 57
      \<or> 51 \<le> n \<and> n < 57 \<and> bit ic (n - 51)
      \<or> 33 \<le> n \<and> n < 51 \<and> bit sc (n - 33)
      \<or> 16 \<le> n \<and> n < 32 \<and> bit kc (n - 16)
      \<or> 8 \<le> n \<and> n < 16 \<and> bit layer (n - 8))"
  unfolding layout_word_def
  by (simp add: bit_or_iff bit_push_of_bool bit_push_ucast)

lemma initialize_bits:
  "bit (initialize l h b s layer) n =
     (l \<and> n = 63 \<or> h \<and> n = 59 \<or> b \<and> n = 58 \<or> s \<and> n = 57
      \<or> 8 \<le> n \<and> n < 16 \<and> bit layer (n - 8))"
  unfolding initialize_def Let_def kPageVersionLayerShifts_def
  by (cases l; cases h; cases b; cases s)
     (simp_all add: bit_or_iff bit_consts bit_push_ucast)

text \<open>The word that \<open>initialize\<close> builds is the one the layout table prescribes.\<close>

lemma initialize_is_layout_word:
  "initialize l h b s layer = layout_word l h b s layer 0 False False 0 0"
  by (rule bit_word_eqI) (simp add: initialize_bits layout_word_bits)

lemma layout_word_flags:
  "is_locked (layout_word l h b s layer kc ins spl ic sc) = l"
  "is_inserting (layout_word l h b s layer kc ins spl ic sc) = ins"
  "is_splitting (layout_word l h b s layer kc ins spl ic sc) = spl"
  "has_foster_child (layout_word l h b s layer kc ins spl ic sc) = h"
  "is_border (layout_word l h b s layer kc ins spl ic sc) = b"
  "is_high_fence_supremum (layout_word l h b s layer kc ins spl ic sc) = s"
  by (simp_all add: flag_bits layout_word_bits)

lemma layout_word_layer:
  "get_layer (layout_word l h b s layer kc ins spl ic sc) = layer"
  by (rule bit_word_eqI) (auto simp add: getter_bits layout_word_bits)

lemma layout_word_key_count:
  "get_key_count (layout_word l h b s layer kc ins spl ic sc) = kc"
  by (rule bit_word_eqI) (auto simp add: getter_bits layout_word_bits)

lemma layout_word_insert_counter:
  "get_insert_counter (layout_word l h b s layer kc ins spl ic sc) = ucast ic"
  by (rule bit_word_eqI)
     (auto simp add: getter_bits layout_word_bits bit_ucast_iff dest: bit_imp_le_length)

lemma layout_word_split_counter:
  "get_split_counter (layout_word l h b s layer kc ins spl ic sc) = ucast sc"
  by (rule bit_word_eqI)
     (auto simp add: getter_bits layout_word_bits bit_ucast_iff dest: bit_imp_le_length)

lemmas layout_word_getters = layout_word_flags layout_word_layer layout_word_key_count
  layout_word_insert_counter layout_word_split_counter

lemma initialize_getters:
  "is_locked (initialize l h b s layer) = l"
  "is_inserting (initialize l h b s layer) = False"
  "is_splitting (initialize l h b s layer) = False"
  "has_foster_child (initialize l h b s layer) = h"
  "is_border (initialize l h b s layer) = b"
  "is_high_fence_supremum (initialize l h b s layer) = s"
  "get_layer (initialize l h b s layer) = layer"
  "get_key_count (initialize l h b s layer) = 0"
  "get_insert_counter (initialize l h b s layer) = 0"
  "get_split_counter (initialize l h b s layer) = 0"
  by (simp_all add: initialize_is_layout_word layout_word_getters)

text \<open>
  C5.  For every choice of the four flags and every layer (a byte), the getters read back
  from the word that \<open>initialize\<close> builds exactly the values given, and its insertion
  counter, split counter and key count are 0.  More generally, for every assignment of
  the ten fields, the getters of the code read back from the word built under the
  documented layout exactly the fields it was built from.
\<close>

theorem version_layout_roundtrip:
  "is_locked (initialize l h b s layer) = l
   \<and> has_foster_child (initialize l h b s layer) = h
   \<and> is_border (initialize l h b s layer) = b
   \<and> is_high_fence_supremum (initialize l h b s layer) = s
   \<and> get_layer (initialize l h b s layer) = layer
   \<and> get_insert_counter (initialize l h b s layer) = 0
   \<and> get_split_counter (initialize l h b s layer) = 0
   \<and> get_key_count (initialize l h b s layer) = 0
   \<and> is_locked (layout_word l h b s layer kc ins spl ic sc) = l
   \<and> has_foster_child (layout_word l h b s layer kc ins spl ic sc) = h
   \<and> is_border (layout_word l h b s layer kc ins spl ic sc) = b
   \<and> is_high_fence_supremum (layout_word l h b s layer kc ins spl ic sc) = s
   \<and> get_layer (layout_word l h b s layer kc ins spl ic sc) = layer
   \<and> get_key_count (layout_word l h b s layer kc ins spl ic sc) = kc
   \<and> is_inserting (layout_word l h b s layer kc ins spl ic sc) = ins
   \<and> is_splitting (layout_word l h b s layer kc ins spl ic sc) = spl
   \<and> get_insert_counter (layout_word l h b s layer kc ins spl ic sc) = ucast ic
   \<and> get_split_counter (layout_word l h b s layer kc ins spl ic sc) = ucast sc"
  by (simp only: initialize_getters layout_word_getters simp_thms)

section \<open>Unlocking\<close>

subsection \<open>Arithmetic of the two counter fields\<close>

lemma no_high_bits: "\<not> bit (w :: 64 word) m" if "unat w < 2 ^ k" "k \<le> m"
proof -
  have "(2::nat) ^ k \<le> 2 ^ m" using that(2) by (simp add: power_increasing)
  with that(1) have "unat w < 2 ^ m" by (rule less_le_trans)
  then have "unat w div 2 ^ m = 0" by simp
  then have "\<not> bit (unat w) m" by (simp add: bit_iff_odd)
  then show ?thesis by (simp add: bit_unsigned_iff)
qed

lemma insertion_counter_field:
  "(d :: 64 word) AND kPageVersionInsertionCounterMask = push_bit 51 (take_bit 6 (drop_bit 51 d))"
  unfolding insertion_counter_mask_eq by (rule bit_word_eqI) (auto simp add: bit_simps)

lemma split_counter_field:
  "(d :: 64 word) AND kPageVersionSplitCounterMask = push_bit 33 (take_bit 18 (drop_bit 33 d))"
  unfolding split_counter_mask_eq by (rule bit_word_eqI) (auto simp add: bit_simps)

lemma get_insert_counter_eq: "get_insert_counter d = ucast (take_bit 6 (drop_bit 51 d))"
  by (rule bit_word_eqI) (auto simp add: get_insert_counter_bits bit_simps)

lemma get_split_counter_eq: "get_split_counter d = ucast (take_bit 18 (drop_bit 33 d))"
  by (rule bit_word_eqI) (auto simp add: get_split_counter_bits bit_simps)

lemma unat_get_insert_counter:
  "unat (get_insert_counter d) = unat (take_bit 6 (drop_bit 51 d))"
  unfolding get_insert_counter_eq
  by (simp add: unsigned_ucast_eq unsigned_take_bit_eq)

lemma unat_get_split_counter:
  "unat (get_split_counter d) = unat (take_bit 18 (drop_bit 33 d))"
  unfolding get_split_counter_eq
  by (simp add: unsigned_ucast_eq unsigned_take_bit_eq)

lemma unat_field_less: "unat (take_bit k (y :: 64 word)) < 2 ^ k"
  by (simp add: unsigned_take_bit_eq)

lemma unat_succ_field:
  "unat (take_bit k (y :: 64 word) + 1) = unat (take_bit k y) + 1" if "k \<le> 18"
proof -
  have "(2::nat) ^ k \<le> 2 ^ 18" using that by (rule power_increasing) simp
  with unat_field_less [of k y] have "unat (take_bit k y) < 2 ^ 18" by (rule less_le_trans)
  then have "unat (take_bit k y) + 1 < 2 ^ 64" by simp
  then show ?thesis by (simp add: unat_word_ariths)
qed

lemma unat_plus_of_bool:
  "unat (take_bit k (y :: 64 word) + of_bool b) = unat (take_bit k y) + of_bool b" if "k \<le> 18"
  using unat_succ_field [OF that] by (cases b) simp_all

lemma unat_ucast_take_bit_6:
  "unat (ucast (take_bit 6 (x :: 64 word)) :: 32 word) = unat x mod 64"
proof -
  have "unat (ucast (take_bit 6 x) :: 32 word) = take_bit 6 (unat x)"
    by (simp add: unsigned_ucast_eq unsigned_take_bit_eq)
  then show ?thesis by (simp add: take_bit_eq_mod)
qed

lemma unat_ucast_take_bit_18:
  "unat (ucast (take_bit 18 (x :: 64 word)) :: 32 word) = unat x mod 262144"
proof -
  have "unat (ucast (take_bit 18 x) :: 32 word) = take_bit 18 (unat x)"
    by (simp add: unsigned_ucast_eq unsigned_take_bit_eq)
  then show ?thesis by (simp add: take_bit_eq_mod)
qed

subsection \<open>The stored word\<close>

text \<open>
  The split counter does not carry out of its field when the splitting bit is clear or
  the counter is below its maximum.
\<close>

lemma no_carry_bound:
  assumes "is_splitting d \<longrightarrow> get_split_counter d \<noteq> 0x3FFFF"
  shows "unat (take_bit 18 (drop_bit 33 d) + of_bool (is_splitting d) :: 64 word) < 2 ^ 18"
proof (cases "is_splitting d")
  case False
  then show ?thesis using unat_field_less [of 18 "drop_bit 33 d"] by simp
next
  case True
  with assms have "unat (get_split_counter d) \<noteq> unat (0x3FFFF :: 32 word)"
    by (simp add: word_unat_eq_iff)
  then have "unat (take_bit 18 (drop_bit 33 d)) \<noteq> 262143"
    by (simp add: unat_get_split_counter)
  with unat_field_less [of 18 "drop_bit 33 d"] True show ?thesis
    by (simp add: unat_succ_field)
qed

lemma counters_disjoint:
  assumes "unat (t :: 64 word) < 2 ^ 18"
  shows "push_bit 51 (x :: 64 word) AND push_bit 33 t = 0"
  by (rule bit_word_eqI)
     (auto simp add: bit_and_iff bit_push_bit_iff no_high_bits [OF assms])

text \<open>In a release build the assertions are not there, and every locked word is unlocked.\<close>

lemma unlock_version_release:
  assumes "is_locked d"
  shows "unlock_version False d =
    Some ((d AND kPageVersionUnlockMask)
      OR push_bit 51 (take_bit 6 (drop_bit 51 d) + of_bool (is_inserting d))
      OR push_bit 33 (take_bit 18 (drop_bit 33 d) + of_bool (is_splitting d)))"
  unfolding unlock_version_def Let_def ASSERT_ND_def insertion_counter_field split_counter_field
    kPageVersionInsertionCounterShifts_def kPageVersionSplitCounterShifts_def
  by (simp add: push_bit_add flip: is_inserting_def is_splitting_def)

text \<open>A debug build stores the same word or aborts.\<close>

lemma unlock_version_debug:
  "unlock_version True d = None \<or> unlock_version True d = unlock_version False d"
  by (simp add: unlock_version_def Let_def ASSERT_ND_def)

lemma unlock_version_stored:
  assumes "is_locked d" and "is_splitting d \<longrightarrow> get_split_counter d \<noteq> 0x3FFFF"
  shows "unlock_version nd d =
    Some ((d AND kPageVersionUnlockMask)
      OR push_bit 51 (take_bit 6 (drop_bit 51 d) + of_bool (is_inserting d))
      OR push_bit 33 (take_bit 18 (drop_bit 33 d) + of_bool (is_splitting d)))"
proof -
  have "is_inserting d \<Longrightarrow> push_bit 51 (take_bit 6 (drop_bit 51 d) + 1) AND
        push_bit 33 (take_bit 18 (drop_bit 33 d) + of_bool (is_splitting d)) = 0"
    by (rule counters_disjoint [OF no_carry_bound [OF assms(2)]])
  moreover have "push_bit 51 (take_bit 6 (drop_bit 51 d)) AND
        push_bit 33 (take_bit 18 (drop_bit 33 d) + of_bool (is_splitting d)) = 0"
    by (rule counters_disjoint [OF no_carry_bound [OF assms(2)]])
  ultimately show ?thesis
    using assms(1)
    unfolding unlock_version_def Let_def ASSERT_ND_def insertion_counter_field
      split_counter_field kPageVersionInsertionCounterShifts_def
      kPageVersionSplitCounterShifts_def
    by (auto simp add: push_bit_add simp flip: is_inserting_def is_splitting_def is_locked_def)
qed

lemma stored_insert_counter:
  assumes "unat (t :: 64 word) < 2 ^ 18"
  shows "get_insert_counter ((d AND kPageVersionUnlockMask) OR push_bit 51 x OR push_bit 33 t)
     = ucast (take_bit 6 x)"
  by (rule bit_word_eqI)
     (auto simp add: get_insert_counter_bits bit_or_iff bit_and_iff bit_kPageVersionUnlockMask
        bit_push_bit_iff bit_ucast_iff bit_take_bit_iff no_high_bits [OF assms])

lemma stored_split_counter:
  "get_split_counter ((d AND kPageVersionUnlockMask) OR push_bit 51 x OR push_bit 33 t)
     = ucast (take_bit 18 t)"
  by (rule bit_word_eqI)
     (auto simp add: get_split_counter_bits bit_or_iff bit_and_iff bit_kPageVersionUnlockMask
        bit_push_bit_iff bit_ucast_iff bit_take_bit_iff)

text \<open>
  Without a carry out of the split counter, each counter is bumped exactly when its bit
  is set: the insertion counter modulo 64, the split counter by one.
\<close>

lemma unlock_version_counters:
  assumes "is_locked d" and "is_splitting d \<longrightarrow> get_split_counter d \<noteq> 0x3FFFF"
  shows "\<exists>d'. unlock_version nd d = Some d'
    \<and> unat (get_insert_counter d')
        = (unat (get_insert_counter d) + of_bool (is_inserting d)) mod 64
    \<and> unat (get_split_counter d') = unat (get_split_counter d) + of_bool (is_splitting d)"
proof -
  let ?x = "take_bit 6 (drop_bit 51 d) :: 64 word"
  let ?s = "take_bit 18 (drop_bit 33 d) :: 64 word"
  let ?d' = "(d AND kPageVersionUnlockMask) OR push_bit 51 (?x + of_bool (is_inserting d))
      OR push_bit 33 (?s + of_bool (is_splitting d))"
  have bound: "unat (?s + of_bool (is_splitting d)) < 2 ^ 18"
    by (rule no_carry_bound [OF assms(2)])
  have "unlock_version nd d = Some ?d'"
    by (rule unlock_version_stored [OF assms])
  moreover have "unat (get_insert_counter ?d')
      = (unat (get_insert_counter d) + of_bool (is_inserting d)) mod 64"
    by (simp only: stored_insert_counter [OF bound] unat_ucast_take_bit_6
        unat_plus_of_bool unat_get_insert_counter)
  moreover have "unat (get_split_counter ?d')
      = unat (get_split_counter d) + of_bool (is_splitting d)"
  proof -
    have "unat (get_split_counter ?d') = unat (?s + of_bool (is_splitting d)) mod 262144"
      by (simp only: stored_split_counter unat_ucast_take_bit_18)
    also have "\<dots> = unat (?s + of_bool (is_splitting d))"
      using bound by simp
    also have "\<dots> = unat (get_split_counter d) + of_bool (is_splitting d)"
      by (simp add: unat_plus_of_bool unat_get_split_counter)
    finally show ?thesis .
  qed
  ultimately show ?thesis by blast
qed

subsection \<open>What every unlock keeps and clears\<close>

lemma field_plus_bound6:
  "unat (take_bit 6 (y :: 64 word) + of_bool b) < 2 ^ 7"
  using unat_field_less [of 6 y] by (simp add: unat_plus_of_bool)

lemma field_plus_bound18:
  "unat (take_bit 18 (y :: 64 word) + of_bool b) < 2 ^ 19"
  using unat_field_less [of 18 y] by (simp add: unat_plus_of_bool)

lemma stored_frame_bits:
  assumes "unat (x :: 64 word) < 2 ^ 7" "unat (t :: 64 word) < 2 ^ 19"
  shows "bit ((d AND kPageVersionUnlockMask) OR push_bit 51 x OR push_bit 33 t) n
    = (if n = 59 \<or> n = 58 \<or> 8 \<le> n \<and> n < 32 then bit d n
       else 51 \<le> n \<and> n < 58 \<and> bit x (n - 51) \<or> 33 \<le> n \<and> n < 52 \<and> bit t (n - 33))"
proof -
  have x: "m < 7" if "bit x m" for m
    using no_high_bits [OF assms(1), of m] that by (cases "m < 7") simp_all
  have t: "m < 19" if "bit t m" for m
    using no_high_bits [OF assms(2), of m] that by (cases "m < 19") simp_all
  show ?thesis
    by (auto simp add: bit_or_iff bit_and_iff bit_kPageVersionUnlockMask bit_push_bit_iff
        dest: x t)
qed

lemma unlock_version_word:
  assumes "is_locked d" and "unlock_version nd d = Some d'"
  shows "d' = (d AND kPageVersionUnlockMask)
      OR push_bit 51 (take_bit 6 (drop_bit 51 d) + of_bool (is_inserting d))
      OR push_bit 33 (take_bit 18 (drop_bit 33 d) + of_bool (is_splitting d))"
proof (cases nd)
  case False
  with assms show ?thesis by (simp add: unlock_version_release)
next
  case True
  with assms(2) unlock_version_debug [of d] have "unlock_version False d = Some d'" by auto
  with assms(1) show ?thesis by (simp add: unlock_version_release)
qed

text \<open>
  Whatever the counters do, the stored word has the three lock-protocol bits clear and
  the foster-child flag, the border flag, the key count and the layer of the word read.
\<close>

lemma unlock_version_kept:
  assumes "is_locked d" and "unlock_version nd d = Some d'"
  shows "\<not> is_locked d'" "\<not> is_inserting d'" "\<not> is_splitting d'"
    "has_foster_child d' = has_foster_child d" "is_border d' = is_border d"
    "get_key_count d' = get_key_count d" "get_layer d' = get_layer d"
proof -
  note bits = stored_frame_bits [OF field_plus_bound6 field_plus_bound18]
  note d' = unlock_version_word [OF assms]
  show "\<not> is_locked d'" "\<not> is_inserting d'" "\<not> is_splitting d'"
    "has_foster_child d' = has_foster_child d" "is_border d' = is_border d"
    by (simp_all add: flag_bits d' bits)
  show "get_key_count d' = get_key_count d"
    by (rule bit_word_eqI) (simp add: get_key_count_bits d' bits)
  show "get_layer d' = get_layer d"
    by (rule bit_word_eqI) (simp add: get_layer_bits d' bits)
qed

text \<open>
  The supremum flag is not in the unlock mask.  After an unlock that did not insert it is
  clear, whatever it was before.
\<close>

lemma unlock_version_drops_supremum:
  assumes "is_locked d" and "unlock_version nd d = Some d'" and "\<not> is_inserting d"
  shows "\<not> is_high_fence_supremum d'"
proof -
  have "is_high_fence_supremum d'
      = bit (take_bit 6 (drop_bit 51 d) + of_bool (is_inserting d) :: 64 word) 6"
    by (simp add: is_high_fence_supremum_bit unlock_version_word [OF assms(1,2)]
        stored_frame_bits [OF field_plus_bound6 field_plus_bound18])
  with assms(3) show ?thesis
    by (simp add: bit_take_bit_iff)
qed

subsection \<open>The claims about unlocking\<close>

text \<open>
  C1.  The claim: from every locked word, \<open>unlock_version\<close> stores a word with locked,
  inserting and splitting clear, with has_foster_child, is_border, key_count and layer
  unchanged, with the insertion counter bumped by 1 exactly when the inserting bit was
  set and the split counter bumped by 1 exactly when the splitting bit was set.  All of
  it holds (\<open>unlock_version_kept\<close>, \<open>unlock_version_counters\<close>) as long as the split
  counter does not carry.  Here is a locked word, a border page with 5 keys, that is
  splitting and not inserting, with the split counter at its maximum 0x3FFFF and the
  insertion counter at 0: the bump of the split counter carries into bit 51, and the
  stored word has insertion counter 1 although the inserting bit was not set.  The
  assertion of \<open>unlock_version\<close> does not notice, in either build.
\<close>

theorem unlock_version_split_carry_bumps_insert_counter:
  "is_locked 0xA407FFFE00050000 \<and> is_splitting 0xA407FFFE00050000
   \<and> \<not> is_inserting 0xA407FFFE00050000
   \<and> get_split_counter 0xA407FFFE00050000 = 0x3FFFF
   \<and> get_insert_counter 0xA407FFFE00050000 = 0
   \<and> unlock_version nd 0xA407FFFE00050000 = Some 0x0408000000050000
   \<and> get_insert_counter 0x0408000000050000 = 1
   \<and> get_split_counter 0x0408000000050000 = 0"
  by (simp add: unlock_version_def ASSERT_ND_def getter_defs k_defs)

text \<open>
  C2.  The claim: \<open>unlock_version\<close> leaves the is_high_fence_supremum flag (bit 57)
  unchanged.  A page version initialised as locked, border and supremum has the flag set;
  the word that \<open>unlock_version\<close> stores for it has the flag clear (and the border flag,
  which the unlock mask does keep, still set).
\<close>

theorem unlock_version_clears_supremum:
  "is_locked (initialize True False True True 0)
   \<and> is_high_fence_supremum (initialize True False True True 0)
   \<and> is_border (initialize True False True True 0)
   \<and> unlock_version nd (initialize True False True True 0) = Some 0x0400000000000000
   \<and> \<not> is_high_fence_supremum 0x0400000000000000
   \<and> is_border 0x0400000000000000"
  by (simp add: initialize_getters)
     (simp add: unlock_version_def ASSERT_ND_def initialize_def getter_defs k_defs)

text \<open>
  C3.  The claim: a single \<open>unlock_version\<close> never bumps both counters, and its
  assertion enforces that inserting and splitting exclude each other.  The locked word
  with both bits set and both counters 0 passes the assertion of the debug build, and the
  stored word has both counters at 1.
\<close>

theorem unlock_version_bumps_both_counters:
  "is_locked 0xE000000000000000 \<and> is_inserting 0xE000000000000000
   \<and> is_splitting 0xE000000000000000
   \<and> get_insert_counter 0xE000000000000000 = 0
   \<and> get_split_counter 0xE000000000000000 = 0
   \<and> unlock_version True 0xE000000000000000 = Some 0x0008000200000000
   \<and> get_insert_counter 0x0008000200000000 = 1
   \<and> get_split_counter 0x0008000200000000 = 1"
  by (simp add: unlock_version_def ASSERT_ND_def getter_defs k_defs)

text \<open>
  C3, amended.  For every locked word in which the splitting bit is clear or the split
  counter is below its maximum 0x3FFFF, \<open>unlock_version\<close> stores a word, in either
  build; its insertion counter is the old one plus 1 modulo 64 when the inserting bit was
  set and the old one otherwise, its split counter is the old one plus 1 when the
  splitting bit was set and the old one otherwise.  So the insertion counter changes
  exactly when the inserting bit was set, the split counter changes exactly when the
  splitting bit was set, and the two bumps are independent: with both bits set both
  counters change, with at most one bit set at most one counter changes.
\<close>

theorem unlock_version_bumps_by_bits:
  assumes "is_locked d" and "is_splitting d \<longrightarrow> get_split_counter d \<noteq> 0x3FFFF"
  shows "\<exists>d'. unlock_version nd d = Some d'
    \<and> unat (get_insert_counter d')
        = (unat (get_insert_counter d) + of_bool (is_inserting d)) mod 64
    \<and> unat (get_split_counter d') = unat (get_split_counter d) + of_bool (is_splitting d)
    \<and> (get_insert_counter d' \<noteq> get_insert_counter d) = is_inserting d
    \<and> (get_split_counter d' \<noteq> get_split_counter d) = is_splitting d"
proof -
  from unlock_version_counters [OF assms, of nd] obtain d' where
    d': "unlock_version nd d = Some d'"
    and ic: "unat (get_insert_counter d')
        = (unat (get_insert_counter d) + of_bool (is_inserting d)) mod 64"
    and sc: "unat (get_split_counter d')
        = unat (get_split_counter d) + of_bool (is_splitting d)"
    by blast
  have less: "unat (get_insert_counter d) < 64"
    using unat_field_less [of 6 "drop_bit 51 d"] by (simp add: unat_get_insert_counter)
  have "(unat (get_insert_counter d') \<noteq> unat (get_insert_counter d)) = is_inserting d"
  proof (cases "is_inserting d")
    case False
    with ic less show ?thesis by simp
  next
    case True
    have "(unat (get_insert_counter d) + 1) mod 64 \<noteq> unat (get_insert_counter d)"
    proof (cases "unat (get_insert_counter d) = 63")
      case True
      then show ?thesis by simp
    next
      case False
      with less have "unat (get_insert_counter d) + 1 < 64" by simp
      then show ?thesis by simp
    qed
    with ic True show ?thesis by simp
  qed
  then have "(get_insert_counter d' \<noteq> get_insert_counter d) = is_inserting d"
    by (simp add: word_unat_eq_iff)
  moreover have "(get_split_counter d' \<noteq> get_split_counter d) = is_splitting d"
    using sc by (simp add: word_unat_eq_iff)
  ultimately show ?thesis using d' ic sc by blast
qed

theorem unlock_version_bumps_by_bits_witness:
  "is_locked 0xE000000000000000
   \<and> get_split_counter 0xE000000000000000 \<noteq> 0x3FFFF
   \<and> (\<exists>d'. unlock_version True 0xE000000000000000 = Some d'
        \<and> unat (get_insert_counter d') = 1 \<and> unat (get_split_counter d') = 1
        \<and> get_insert_counter d' \<noteq> get_insert_counter 0xE000000000000000
        \<and> get_split_counter d' \<noteq> get_split_counter 0xE000000000000000)"
proof -
  have l: "is_locked 0xE000000000000000"
    by (simp add: getter_defs k_defs)
  have v: "is_inserting 0xE000000000000000" "is_splitting 0xE000000000000000"
    "get_insert_counter 0xE000000000000000 = 0" "get_split_counter 0xE000000000000000 = 0"
    by (simp_all add: getter_defs k_defs)
  have s: "is_splitting 0xE000000000000000 \<longrightarrow> get_split_counter 0xE000000000000000 \<noteq> 0x3FFFF"
    by (simp add: v)
  from unlock_version_bumps_by_bits [OF l s, of True] l show ?thesis
    by (simp add: v)
qed

text \<open>
  C4.  The claim: the bump of the insertion counter wraps within bits 51..56 without
  altering any bit outside the field, and likewise the split counter within bits 33..50.
  A locked, inserting word with the insertion counter at 63 and the supremum flag clear:
  the counter reads 0 afterwards, and the carry has set bit 57, the supremum flag.  A
  locked, splitting word with the split counter at 0x3FFFF and the insertion counter at 0:
  the split counter reads 0 afterwards, and the carry has set bit 51, so that the
  insertion counter reads 1.  With the insertion counter at 1 instead, the two counter
  words share bit 51 and the assertion of the debug build fails.
\<close>

theorem unlock_version_counter_carries:
  "is_locked 0xC1F8000000000000 \<and> is_inserting 0xC1F8000000000000
   \<and> get_insert_counter 0xC1F8000000000000 = 63
   \<and> \<not> is_high_fence_supremum 0xC1F8000000000000
   \<and> unlock_version nd 0xC1F8000000000000 = Some 0x0200000000000000
   \<and> get_insert_counter 0x0200000000000000 = 0
   \<and> is_high_fence_supremum 0x0200000000000000
   \<and> is_locked 0xA007FFFE00000000 \<and> is_splitting 0xA007FFFE00000000
   \<and> get_split_counter 0xA007FFFE00000000 = 0x3FFFF
   \<and> get_insert_counter 0xA007FFFE00000000 = 0
   \<and> unlock_version nd 0xA007FFFE00000000 = Some 0x0008000000000000
   \<and> get_split_counter 0x0008000000000000 = 0
   \<and> get_insert_counter 0x0008000000000000 = 1
   \<and> is_locked 0xA00FFFFE00000000 \<and> unlock_version True 0xA00FFFFE00000000 = None"
  by (simp add: unlock_version_def ASSERT_ND_def getter_defs k_defs)

section \<open>Setting the key count\<close>

lemma set_key_count_word_bits:
  "bit ((d AND NOT (ucast kPageVersionKeyCountMask)) OR push_bit 16 (ucast (n :: 8 word))
        :: 64 word) i
     = (if 16 \<le> i \<and> i < 32 then i < 24 \<and> bit n (i - 16) else bit d i)"
  by (auto simp add: bit_or_iff bit_and_iff bit_not_iff bit_kPageVersionKeyCountMask
      bit_push_ucast dest: bit_imp_le_length)

lemma set_key_count_word_key_count:
  "get_key_count ((d AND NOT (ucast kPageVersionKeyCountMask)) OR push_bit 16 (ucast (n :: 8 word)))
     = ucast n"
  by (rule bit_word_eqI)
     (auto simp add: get_key_count_bits set_key_count_word_bits bit_ucast_iff
        dest: bit_imp_le_length)

text \<open>The assertion that closes \<open>set_key_count\<close> never fails.\<close>

lemma set_key_count_stored:
  assumes "is_locked d"
  shows "set_key_count nd d n =
    Some ((d AND NOT (ucast kPageVersionKeyCountMask)) OR push_bit 16 (ucast n))"
  using assms
  by (simp add: set_key_count_def ASSERT_ND_def Let_def kPageVersionKeyCountShifts_def
      set_key_count_word_key_count)

lemma set_key_count_word_frame:
  "((d AND NOT (ucast kPageVersionKeyCountMask)) OR push_bit 16 (ucast (n :: 8 word)) :: 64 word)
      AND NOT (ucast kPageVersionKeyCountMask)
   = d AND NOT (ucast kPageVersionKeyCountMask)"
  by (rule bit_word_eqI)
     (auto simp add: bit_and_iff bit_not_iff set_key_count_word_bits bit_kPageVersionKeyCountMask)

lemma set_key_count_word_getters:
  fixes d :: "64 word" and n :: "8 word"
  defines "d' \<equiv> (d AND NOT (ucast kPageVersionKeyCountMask)) OR push_bit 16 (ucast n)"
  shows "is_locked d' = is_locked d" "is_inserting d' = is_inserting d"
    "is_splitting d' = is_splitting d" "has_foster_child d' = has_foster_child d"
    "is_border d' = is_border d" "is_high_fence_supremum d' = is_high_fence_supremum d"
    "get_insert_counter d' = get_insert_counter d" "get_split_counter d' = get_split_counter d"
    "get_layer d' = get_layer d"
proof -
  show "is_locked d' = is_locked d" "is_inserting d' = is_inserting d"
    "is_splitting d' = is_splitting d" "has_foster_child d' = has_foster_child d"
    "is_border d' = is_border d" "is_high_fence_supremum d' = is_high_fence_supremum d"
    by (simp_all add: flag_bits d'_def set_key_count_word_bits)
  show "get_insert_counter d' = get_insert_counter d"
    by (rule bit_word_eqI) (simp add: getter_bits d'_def set_key_count_word_bits)
  show "get_split_counter d' = get_split_counter d"
    by (rule bit_word_eqI) (simp add: getter_bits d'_def set_key_count_word_bits)
  show "get_layer d' = get_layer d"
    by (rule bit_word_eqI) (simp add: getter_bits d'_def set_key_count_word_bits)
qed

lemma unat_ucast_byte: "unat (ucast (n :: 8 word) :: 16 word) = unat n"
proof -
  have "unat n < 2 ^ 16"
    by (rule less_trans [OF unsigned_less]) simp
  then show ?thesis
    by (simp add: unsigned_ucast_eq take_bit_nat_eq_self_iff)
qed

text \<open>
  C10.  The argument of \<open>set_key_count\<close> is a byte, while the key count field has 16
  bits.  For every locked word and every byte \<open>n\<close>, \<open>set_key_count\<close> returns (its two
  assertions hold in a debug build) a word whose key count is \<open>n\<close>, so at most 255, in
  which every bit outside the key count field, and so every other field, is the one of
  the word before.
\<close>

theorem set_key_count_installs_byte:
  assumes "is_locked d"
  shows "\<exists>d'. set_key_count nd d n = Some d'
    \<and> get_key_count d' = ucast n
    \<and> unat (get_key_count d') = unat n \<and> unat (get_key_count d') \<le> 255
    \<and> d' AND NOT (ucast kPageVersionKeyCountMask) = d AND NOT (ucast kPageVersionKeyCountMask)
    \<and> is_locked d' = is_locked d \<and> is_inserting d' = is_inserting d
    \<and> is_splitting d' = is_splitting d \<and> has_foster_child d' = has_foster_child d
    \<and> is_border d' = is_border d \<and> is_high_fence_supremum d' = is_high_fence_supremum d
    \<and> get_insert_counter d' = get_insert_counter d
    \<and> get_split_counter d' = get_split_counter d
    \<and> get_layer d' = get_layer d"
proof -
  have "unat n < 2 ^ LENGTH(8)" by (rule unsigned_less)
  then have "unat n \<le> 255" by simp
  then show ?thesis
    by (simp add: set_key_count_stored [OF assms] set_key_count_word_key_count
        set_key_count_word_frame set_key_count_word_getters unat_ucast_byte)
qed

theorem set_key_count_installs_byte_witness:
  "is_locked (initialize True False True False 2)
   \<and> (\<exists>d'. set_key_count True (initialize True False True False 2) 200 = Some d'
        \<and> get_key_count d' = 200 \<and> is_locked d' \<and> is_border d' \<and> get_layer d' = 2
        \<and> get_insert_counter d' = 0 \<and> get_split_counter d' = 0)"
proof -
  have l: "is_locked (initialize True False True False 2)"
    by (simp add: initialize_getters)
  from set_key_count_installs_byte [OF l, of True 200] l show ?thesis
    by (auto simp add: initialize_getters)
qed

section \<open>The lock, modify, unlock cycles of the specification\<close>

text \<open>
  The model run on the two scenarios the specification walks through.  A border page
  version of layer 0 is locked, an insertion sets the inserting bit and counts a key, and
  the unlock leaves insertion counter 1, split counter 0, key count 1, unlocked and not
  inserting.  The word is locked again, a split sets the splitting bit, and the unlock
  leaves insertion counter 1, split counter 1 and key count 1.
\<close>

lemma lock_unlock_scenarios:
  "set_inserting_and_increment_key_count nd (initialize True False True False 0)
     = Some 0xC400000000010000
   \<and> unlock_version nd 0xC400000000010000 = Some 0x0408000000010000
   \<and> get_insert_counter 0x0408000000010000 = 1 \<and> get_split_counter 0x0408000000010000 = 0
   \<and> get_key_count 0x0408000000010000 = 1
   \<and> \<not> is_locked 0x0408000000010000 \<and> \<not> is_inserting 0x0408000000010000
   \<and> set_splitting nd (0x0408000000010000 OR kPageVersionLockedBit) = Some 0xA408000000010000
   \<and> unlock_version nd 0xA408000000010000 = Some 0x0408000200010000
   \<and> get_insert_counter 0x0408000200010000 = 1 \<and> get_split_counter 0x0408000200010000 = 1
   \<and> get_key_count 0x0408000200010000 = 1"
  by (simp add: set_inserting_and_increment_key_count_def set_inserting_def set_splitting_def
      unlock_version_def ASSERT_ND_def initialize_def getter_defs k_defs)

section \<open>Waiting for a stable version\<close>

lemma stable_word_iff:
  "(v AND (kPageVersionInsertingBit OR kPageVersionSplittingBit) = 0)
     = (\<not> is_inserting v \<and> \<not> is_splitting v)"
  by (simp add: is_inserting_def is_splitting_def bit.conj_disj_distrib or_eq_0_iff)

text \<open>
  The loop ends as soon as a read returns a word that is neither inserting nor splitting:
  if some later read does, \<open>stable_version\<close> returns.
\<close>

lemma stable_version_returns:
  assumes "\<not> is_inserting (obs (n + k)) \<and> \<not> is_splitting (obs (n + k))"
  shows "\<exists>v. stable_version obs n = Some v"
  using assms
proof (induction k arbitrary: n)
  case 0
  then show ?case
    by (subst stable_version.simps) (simp add: stable_word_iff)
next
  case (Suc k)
  then have "\<exists>v. stable_version obs (Suc n) = Some v" by simp
  then show ?case
    by (subst stable_version.simps) (simp add: Let_def)
qed

text \<open>
  C6.  Whenever \<open>stable_version\<close> returns a word, whatever the other threads wrote in
  the meantime, that word has neither the inserting nor the splitting bit set.
\<close>

theorem stable_version_not_modifying:
  assumes "stable_version obs n = Some v"
  shows "\<not> is_inserting v \<and> \<not> is_splitting v"
proof -
  have step: "\<not> is_inserting v \<and> \<not> is_splitting v"
    if IH: "\<And>obs n v. f obs n = Some v \<Longrightarrow> \<not> is_inserting v \<and> \<not> is_splitting v"
      and body: "(let ver = obs n in
          if ver AND (kPageVersionInsertingBit OR kPageVersionSplittingBit) = 0 then Some ver
          else f obs (Suc n)) = Some v"
    for f :: "(nat \<Rightarrow> 64 word) \<Rightarrow> nat \<Rightarrow> PageVersion option" and obs n v
  proof (cases "obs n AND (kPageVersionInsertingBit OR kPageVersionSplittingBit) = 0")
    case True
    with body have "v = obs n" by (simp add: Let_def)
    with True show ?thesis by (simp add: stable_word_iff)
  next
    case False
    with body have "f obs (Suc n) = Some v" by (simp add: Let_def)
    then show ?thesis by (rule IH)
  qed
  show ?thesis
    by (rule stable_version.raw_induct
        [where P = "\<lambda>_ _ v. \<not> is_inserting v \<and> \<not> is_splitting v", OF step assms])
qed

theorem stable_version_not_modifying_witness:
  "stable_version (\<lambda>i. if i < 2 then kPageVersionLockedBit OR kPageVersionInsertingBit else 0) 0
     = Some 0
   \<and> \<not> is_inserting 0 \<and> \<not> is_splitting 0"
proof -
  let ?obs = "\<lambda>i::nat. if i < 2 then kPageVersionLockedBit OR kPageVersionInsertingBit
    else (0 :: 64 word)"
  have ins: "is_inserting (kPageVersionLockedBit OR kPageVersionInsertingBit)"
    by (simp add: is_inserting_bit bit_or_iff bit_consts)
  have 2: "stable_version ?obs (Suc (Suc 0)) = Some 0"
    by (subst stable_version.simps) simp
  have 1: "stable_version ?obs (Suc 0) = Some 0"
    by (subst stable_version.simps) (simp add: stable_word_iff ins 2 Let_def)
  have 0: "stable_version ?obs 0 = Some 0"
    by (subst stable_version.simps) (simp add: stable_word_iff ins 1 Let_def)
  from 0 stable_version_not_modifying [OF 0] show ?thesis by simp
qed

section \<open>The array storage factory\<close>

text \<open>A null pointer aborts a debug build and is a wrong metadata type in a release build.\<close>

lemma get_instance_null:
  "get_instance True engine None = None"
  "get_instance False engine None = Some (Inl kErrorCodeStrWrongMetadataType)"
  by (simp_all add: get_instance_def ASSERT_ND_def)

text \<open>
  C7.  For an \<open>ArrayMetadata\<close>, \<open>get_instance\<close> returns the invalid-option error
  (\<open>kErrorCodeStrArrayInvalidOption\<close>, the StorageInvalidOption kind of the
  specification) when the payload size is 0, the same error when the array size is 0, and
  otherwise succeeds with a storage built from the engine and that metadata; for a
  metadata object that is not an \<open>ArrayMetadata\<close> it returns the wrong-metadata-type
  error.
\<close>

theorem get_instance_cases:
  "get_instance nd engine (Some (ArrayMetadataObject m)) =
     Some (if payload_size_m m = 0 then Inl kErrorCodeStrArrayInvalidOption
           else if array_size_m m = 0 then Inl kErrorCodeStrArrayInvalidOption
           else Inr \<lparr>engine_m = engine, metadata_m = m, create_m = False\<rparr>)
   \<and> get_instance nd engine (Some (OtherMetadataObject b))
       = Some (Inl kErrorCodeStrWrongMetadataType)"
  by (simp add: get_instance_def ASSERT_ND_def)

section \<open>Fixed-capacity strings: the length never exceeds the capacity\<close>

lemma memcpy_in_bounds:
  assumes "n \<le> length dst" and "n \<le> length src"
  shows "memcpy dst src n = Some (take n src @ drop n dst)"
  using assms by (simp add: memcpy_def)

lemma copied_prefix:
  assumes "n \<le> length dst" and "n \<le> length src"
  shows "take n (take n src @ drop n dst) = take n src"
    and "length (take n src @ drop n dst) = length dst"
    and "drop n (take n src @ drop n dst) = drop n dst"
  using assms by simp_all

lemma unat_truncated:
  "unat (if len > MAXLEN then MAXLEN else len) = min (unat len) (unat MAXLEN)"
  for len MAXLEN :: "32 word"
  by (simp add: word_less_nat_alt min_def)

lemma truncated_le: "(if len > MAXLEN then MAXLEN else len) \<le> MAXLEN"
  for len MAXLEN :: "32 word"
  by (simp add: not_less)

lemma unat_size_truncated:
  "unat (if length str > unat MAXLEN then MAXLEN else word_of_nat (length str))
     = min (length str) (unat MAXLEN)"
  for MAXLEN :: "32 word"
proof (cases "length str > unat MAXLEN")
  case True
  then show ?thesis by (simp add: min_def)
next
  case False
  have "unat MAXLEN < 2 ^ LENGTH(32)" by (rule unsigned_less)
  with False have "length str < 2 ^ LENGTH(32)" by simp
  then have "unat (word_of_nat (length str) :: 32 word) = length str"
    by (simp add: unat_of_nat)
  with False show ?thesis by (simp add: min_def)
qed

lemma size_truncated_le:
  "(if length str > unat MAXLEN then MAXLEN else word_of_nat (length str)) \<le> MAXLEN"
  for MAXLEN :: "32 word"
  using unat_size_truncated [of MAXLEN str] by (simp only: word_le_nat_alt)

lemma unat_strlen: "unat (strlen str) = length str" if "length str < 2 ^ 32"
  using that by (simp add: strlen_def unat_of_nat)

text \<open>The three assignments, when the reads and writes of \<open>memcpy\<close> stay in bounds.\<close>

lemma assign_ptr_result:
  assumes "length (data_m this) = unat MAXLEN"
    and "min (unat len) (unat MAXLEN) \<le> length str"
  shows "\<exists>r. assign_ptr MAXLEN this str len = Some r
    \<and> unat (length_m r) = min (unat len) (unat MAXLEN)
    \<and> take (unat (length_m r)) (data_m r) = take (unat (length_m r)) str
    \<and> drop (unat (length_m r)) (data_m r) = drop (unat (length_m r)) (data_m this)
    \<and> length (data_m r) = unat MAXLEN
    \<and> length_m r \<le> MAXLEN"
proof -
  let ?l = "if len > MAXLEN then MAXLEN else len"
  have l: "unat ?l = min (unat len) (unat MAXLEN)" by (rule unat_truncated)
  have dst: "unat ?l \<le> length (data_m this)" using assms(1) by (simp add: l)
  have src: "unat ?l \<le> length str" using assms(2) by (simp only: l)
  have "assign_ptr MAXLEN this str len
      = Some \<lparr>length_m = ?l, data_m = take (unat ?l) str @ drop (unat ?l) (data_m this)\<rparr>"
    unfolding assign_ptr_def Let_def by (simp only: memcpy_in_bounds [OF dst src] option.case)
  moreover have "take (unat ?l) (take (unat ?l) str @ drop (unat ?l) (data_m this))
      = take (unat ?l) str"
    by (rule copied_prefix(1) [OF dst src])
  moreover have "drop (unat ?l) (take (unat ?l) str @ drop (unat ?l) (data_m this))
      = drop (unat ?l) (data_m this)"
    by (rule copied_prefix(3) [OF dst src])
  moreover have "length (take (unat ?l) str @ drop (unat ?l) (data_m this)) = unat MAXLEN"
    using copied_prefix(2) [OF dst src] assms(1) by simp
  ultimately show ?thesis
    using l truncated_le [of MAXLEN len] by simp
qed

lemma assign_string_result:
  assumes "length (data_m this) = unat MAXLEN"
  shows "\<exists>r. assign_string MAXLEN this str = Some r
    \<and> unat (length_m r) = min (length str) (unat MAXLEN)
    \<and> take (unat (length_m r)) (data_m r) = take (unat (length_m r)) str
    \<and> drop (unat (length_m r)) (data_m r) = drop (unat (length_m r)) (data_m this)
    \<and> length (data_m r) = unat MAXLEN
    \<and> length_m r \<le> MAXLEN"
proof -
  let ?l = "if length str > unat MAXLEN then MAXLEN else word_of_nat (length str)"
  have l: "unat ?l = min (length str) (unat MAXLEN)" by (rule unat_size_truncated)
  have dst: "unat ?l \<le> length (data_m this)" using assms(1) by (simp add: l)
  have src: "unat ?l \<le> length str" by (simp add: l)
  have "assign_string MAXLEN this str
      = Some \<lparr>length_m = ?l, data_m = take (unat ?l) str @ drop (unat ?l) (data_m this)\<rparr>"
    unfolding assign_string_def Let_def by (simp only: memcpy_in_bounds [OF dst src] option.case)
  moreover have "take (unat ?l) (take (unat ?l) str @ drop (unat ?l) (data_m this))
      = take (unat ?l) str"
    by (rule copied_prefix(1) [OF dst src])
  moreover have "drop (unat ?l) (take (unat ?l) str @ drop (unat ?l) (data_m this))
      = drop (unat ?l) (data_m this)"
    by (rule copied_prefix(3) [OF dst src])
  moreover have "length (take (unat ?l) str @ drop (unat ?l) (data_m this)) = unat MAXLEN"
    using copied_prefix(2) [OF dst src] assms(1) by simp
  ultimately show ?thesis
    using l size_truncated_le [of MAXLEN str] by simp
qed

lemma assign_fixed_result:
  assumes "length (data_m this) = unat MAXLEN"
    and "length (data_m other) = unat MAXLEN2" and "length_m other \<le> MAXLEN2"
    and "ASSERT_ND nd (length_m other < MAXLEN2)"
  shows "\<exists>r. assign_fixed nd MAXLEN this MAXLEN2 other = Some r
    \<and> unat (length_m r) = min (unat (length_m other)) (unat MAXLEN)
    \<and> take (unat (length_m r)) (data_m r) = take (unat (length_m r)) (data_m other)
    \<and> drop (unat (length_m r)) (data_m r) = drop (unat (length_m r)) (data_m this)
    \<and> length (data_m r) = unat MAXLEN
    \<and> length_m r \<le> MAXLEN"
proof -
  let ?l = "if length_m other > MAXLEN then MAXLEN else length_m other"
  have l: "unat ?l = min (unat (length_m other)) (unat MAXLEN)" by (rule unat_truncated)
  have dst: "unat ?l \<le> length (data_m this)" using assms(1) by (simp add: l)
  have "unat (length_m other) \<le> length (data_m other)"
    using assms(2,3) by (simp add: word_le_nat_alt)
  then have src: "unat ?l \<le> length (data_m other)" by (simp add: l)
  have "assign_fixed nd MAXLEN this MAXLEN2 other
      = Some \<lparr>length_m = ?l,
          data_m = take (unat ?l) (data_m other) @ drop (unat ?l) (data_m this)\<rparr>"
    unfolding assign_fixed_def Let_def
    using assms(4) by (simp only: memcpy_in_bounds [OF dst src] option.case) simp
  moreover have "take (unat ?l) (take (unat ?l) (data_m other) @ drop (unat ?l) (data_m this))
      = take (unat ?l) (data_m other)"
    by (rule copied_prefix(1) [OF dst src])
  moreover have "drop (unat ?l) (take (unat ?l) (data_m other) @ drop (unat ?l) (data_m this))
      = drop (unat ?l) (data_m this)"
    by (rule copied_prefix(3) [OF dst src])
  moreover have "length (take (unat ?l) (data_m other) @ drop (unat ?l) (data_m this))
      = unat MAXLEN"
    using copied_prefix(2) [OF dst src] assms(1) by simp
  ultimately show ?thesis
    using l truncated_le [of MAXLEN "length_m other"] by simp
qed

text \<open>
  The copy constructor: the template for a source of another capacity, the memberwise
  copy, which takes the whole array, for a source of the same capacity.
\<close>

lemma FixedString_copy_result:
  assumes "length (data_m this) = unat MAXLEN"
    and "length (data_m other) = unat MAXLEN2" and "length_m other \<le> MAXLEN2"
    and "MAXLEN2 = MAXLEN \<or> ASSERT_ND nd (length_m other < MAXLEN2)"
  shows "\<exists>r. FixedString_copy nd MAXLEN this MAXLEN2 other = Some r
    \<and> unat (length_m r) = min (unat (length_m other)) (unat MAXLEN)
    \<and> take (unat (length_m r)) (data_m r) = take (unat (length_m r)) (data_m other)
    \<and> (if MAXLEN2 = MAXLEN then data_m r = data_m other
        else drop (unat (length_m r)) (data_m r) = drop (unat (length_m r)) (data_m this))
    \<and> length (data_m r) = unat MAXLEN
    \<and> length_m r \<le> MAXLEN"
proof (cases "MAXLEN2 = MAXLEN")
  case True
  with assms(3) have "unat (length_m other) \<le> unat MAXLEN"
    by (simp add: word_le_nat_alt)
  with True assms(2,3) show ?thesis
    by (simp add: FixedString_copy_def min_def)
next
  case False
  with assms(4) have "ASSERT_ND nd (length_m other < MAXLEN2)" by simp
  from assign_fixed_result [OF assms(1,2,3) this] False show ?thesis
    by (simp add: FixedString_copy_def)
qed

text \<open>
  Whatever the input, a result never has a length above the capacity; the memberwise copy
  hands on the length of its source, which is a \<open>FixedString\<close> of the same capacity.
\<close>

lemma results_within_capacity:
  "assign_ptr MAXLEN this str len = Some r \<Longrightarrow> length_fs r \<le> capacity MAXLEN"
  "assign_string MAXLEN this str = Some r \<Longrightarrow> length_fs r \<le> capacity MAXLEN"
  "assign_fixed nd MAXLEN this MAXLEN2 other = Some r \<Longrightarrow> length_fs r \<le> capacity MAXLEN"
  "FixedString_cstr MAXLEN this str = Some r \<Longrightarrow> length_fs r \<le> capacity MAXLEN"
  "length_m other \<le> MAXLEN2 \<Longrightarrow> FixedString_copy nd MAXLEN this MAXLEN2 other = Some r
     \<Longrightarrow> length_fs r \<le> capacity MAXLEN"
proof -
  show "length_fs r \<le> capacity MAXLEN" if "assign_ptr MAXLEN this str len = Some r"
    for str len
    using that truncated_le [of MAXLEN len]
    by (auto simp add: assign_ptr_def Let_def capacity_def length_fs_def split: option.splits if_splits)
  then show "FixedString_cstr MAXLEN this str = Some r \<Longrightarrow> length_fs r \<le> capacity MAXLEN"
    by (simp add: FixedString_cstr_def)
  show "assign_string MAXLEN this str = Some r \<Longrightarrow> length_fs r \<le> capacity MAXLEN"
    using size_truncated_le [of MAXLEN str]
    by (auto simp add: assign_string_def Let_def capacity_def length_fs_def split: option.splits if_splits)
  show fixed: "assign_fixed nd MAXLEN this MAXLEN2 other = Some r
      \<Longrightarrow> length_fs r \<le> capacity MAXLEN"
    using truncated_le [of MAXLEN "length_m other"]
    by (auto simp add: assign_fixed_def Let_def capacity_def length_fs_def split: option.splits if_splits)
  show "length_fs r \<le> capacity MAXLEN"
    if "length_m other \<le> MAXLEN2" and "FixedString_copy nd MAXLEN this MAXLEN2 other = Some r"
  proof (cases "MAXLEN2 = MAXLEN")
    case True
    with that show ?thesis
      by (auto simp add: FixedString_copy_def capacity_def length_fs_def)
  next
    case False
    with that(2) have "assign_fixed nd MAXLEN this MAXLEN2 other = Some r"
      by (simp add: FixedString_copy_def)
    then show ?thesis by (rule fixed)
  qed
qed

text \<open>
  C9.  The claim: for every input string of any length, each constructor and each
  \<open>assign\<close> overload sets \<open>length()\<close> to the minimum of the input length and
  \<open>MAXLEN\<close>.  The constructor from a null-terminated string measures its input with
  the 32-bit \<open>strlen\<close>: for a \<open>FixedString<8>\<close> built from a string of 4294967296
  characters the measured length is 0, and so is \<open>length()\<close>, where the minimum of the
  input length and \<open>MAXLEN\<close> is 8.
\<close>

theorem FixedString_cstr_measures_32_bits:
  "FixedString_cstr 8 \<lparr>length_m = 5, data_m = ''????????''\<rparr> (replicate 4294967296 CHR ''a'')
     = Some \<lparr>length_m = 0, data_m = ''????????''\<rparr>
   \<and> min (length (replicate 4294967296 CHR ''a'')) (unat (8 :: 32 word)) = 8"
  by (simp add: FixedString_cstr_def assign_ptr_def strlen_def memcpy_def)

text \<open>
  C9, amended.  Every \<open>FixedString\<close> operation preserves
  \<open>length() \<le> capacity()\<close>: the length of a result is at most \<open>MAXLEN\<close>,
  whatever the input of an \<open>assign\<close> overload or of a constructor from characters,
  and for the copy constructor whenever the length of its source is within the capacity
  of the source.  The default constructor sets the length to 0.  The assignment and the
  constructor from a \<open>std::string\<close>, from a pointer and a length (the buffer holding
  what is read), from a null-terminated string of fewer than 4294967296 characters (the
  class documents "not more than 2^32-1 chars"), the assignment from another
  \<open>FixedString\<close> (whose assertion \<open>other.length() < MAXLEN2\<close> holds or is compiled
  out) and the constructor from a \<open>FixedString\<close> of another capacity (likewise) set
  \<open>length()\<close> to the minimum of the input length and \<open>MAXLEN\<close>, copy exactly that
  many characters, leave the rest of the array as it was and the array \<open>MAXLEN\<close>
  long.  The constructor from a \<open>FixedString\<close> of the same capacity is the implicit
  memberwise copy: it asserts nothing, takes the length of its source, which is that
  minimum, and copies the whole array.
\<close>

theorem FixedString_length_within_capacity:
  fixes this other :: "'c FixedString"
  assumes "length (data_m this) = unat MAXLEN"
  shows "length_m (FixedString_default this) = 0
    \<and> FixedString_string MAXLEN this str = assign_string MAXLEN this str
    \<and> FixedString_ptr MAXLEN this buf len = assign_ptr MAXLEN this buf len
    \<and> (length (data_m other) = unat MAXLEN2 \<and> length_m other \<le> MAXLEN2
          \<and> (MAXLEN2 = MAXLEN \<or> ASSERT_ND nd (length_m other < MAXLEN2)) \<longrightarrow>
        (\<exists>r. FixedString_copy nd MAXLEN this MAXLEN2 other = Some r
          \<and> unat (length_m r) = min (unat (length_m other)) (unat MAXLEN)
          \<and> take (unat (length_m r)) (data_m r) = take (unat (length_m r)) (data_m other)
          \<and> (if MAXLEN2 = MAXLEN then data_m r = data_m other
              else drop (unat (length_m r)) (data_m r) = drop (unat (length_m r)) (data_m this))
          \<and> length (data_m r) = unat MAXLEN \<and> length_fs r \<le> capacity MAXLEN))
    \<and> (length_m other \<le> MAXLEN2 \<longrightarrow>
        (\<forall>r. FixedString_copy nd MAXLEN this MAXLEN2 other = Some r
          \<longrightarrow> length_fs r \<le> capacity MAXLEN))
    \<and> (\<exists>r. assign_string MAXLEN this str = Some r
          \<and> unat (length_m r) = min (length str) (unat MAXLEN)
          \<and> take (unat (length_m r)) (data_m r) = take (unat (length_m r)) str
          \<and> drop (unat (length_m r)) (data_m r) = drop (unat (length_m r)) (data_m this)
          \<and> length (data_m r) = unat MAXLEN \<and> length_fs r \<le> capacity MAXLEN)
    \<and> (min (unat len) (unat MAXLEN) \<le> length buf \<longrightarrow>
        (\<exists>r. assign_ptr MAXLEN this buf len = Some r
          \<and> unat (length_m r) = min (unat len) (unat MAXLEN)
          \<and> take (unat (length_m r)) (data_m r) = take (unat (length_m r)) buf
          \<and> drop (unat (length_m r)) (data_m r) = drop (unat (length_m r)) (data_m this)
          \<and> length (data_m r) = unat MAXLEN \<and> length_fs r \<le> capacity MAXLEN))
    \<and> (length cstr < 2 ^ 32 \<longrightarrow>
        (\<exists>r. FixedString_cstr MAXLEN this cstr = Some r
          \<and> unat (length_m r) = min (length cstr) (unat MAXLEN)
          \<and> take (unat (length_m r)) (data_m r) = take (unat (length_m r)) cstr
          \<and> drop (unat (length_m r)) (data_m r) = drop (unat (length_m r)) (data_m this)
          \<and> length (data_m r) = unat MAXLEN \<and> length_fs r \<le> capacity MAXLEN))
    \<and> (length (data_m other) = unat MAXLEN2 \<and> length_m other \<le> MAXLEN2
          \<and> ASSERT_ND nd (length_m other < MAXLEN2) \<longrightarrow>
        (\<exists>r. assign_fixed nd MAXLEN this MAXLEN2 other = Some r
          \<and> unat (length_m r) = min (unat (length_m other)) (unat MAXLEN)
          \<and> take (unat (length_m r)) (data_m r) = take (unat (length_m r)) (data_m other)
          \<and> drop (unat (length_m r)) (data_m r) = drop (unat (length_m r)) (data_m this)
          \<and> length (data_m r) = unat MAXLEN \<and> length_fs r \<le> capacity MAXLEN))
    \<and> (\<forall>r. assign_string MAXLEN this str = Some r \<or> assign_ptr MAXLEN this buf len = Some r
            \<or> FixedString_cstr MAXLEN this cstr = Some r
            \<or> assign_fixed nd MAXLEN this MAXLEN2 other = Some r
          \<longrightarrow> length_fs r \<le> capacity MAXLEN)"
proof -
  have "length_m (FixedString_default this) = 0"
    by (simp add: FixedString_default_def)
  moreover have "\<exists>r. assign_string MAXLEN this str = Some r
          \<and> unat (length_m r) = min (length str) (unat MAXLEN)
          \<and> take (unat (length_m r)) (data_m r) = take (unat (length_m r)) str
          \<and> drop (unat (length_m r)) (data_m r) = drop (unat (length_m r)) (data_m this)
          \<and> length (data_m r) = unat MAXLEN \<and> length_fs r \<le> capacity MAXLEN"
    using assign_string_result [OF assms, of str] by (simp add: capacity_def length_fs_def)
  moreover have "\<exists>r. assign_ptr MAXLEN this buf len = Some r
          \<and> unat (length_m r) = min (unat len) (unat MAXLEN)
          \<and> take (unat (length_m r)) (data_m r) = take (unat (length_m r)) buf
          \<and> drop (unat (length_m r)) (data_m r) = drop (unat (length_m r)) (data_m this)
          \<and> length (data_m r) = unat MAXLEN \<and> length_fs r \<le> capacity MAXLEN"
    if "min (unat len) (unat MAXLEN) \<le> length buf"
    using assign_ptr_result [OF assms that] by (simp add: capacity_def length_fs_def)
  moreover have "\<exists>r. FixedString_cstr MAXLEN this cstr = Some r
          \<and> unat (length_m r) = min (length cstr) (unat MAXLEN)
          \<and> take (unat (length_m r)) (data_m r) = take (unat (length_m r)) cstr
          \<and> drop (unat (length_m r)) (data_m r) = drop (unat (length_m r)) (data_m this)
          \<and> length (data_m r) = unat MAXLEN \<and> length_fs r \<le> capacity MAXLEN"
    if "length cstr < 2 ^ 32"
  proof -
    have "min (unat (strlen cstr)) (unat MAXLEN) \<le> length cstr"
      by (simp add: unat_strlen [OF that])
    from assign_ptr_result [OF assms this] show ?thesis
      by (simp add: FixedString_cstr_def capacity_def length_fs_def unat_strlen [OF that])
  qed
  moreover have "\<exists>r. assign_fixed nd MAXLEN this MAXLEN2 other = Some r
          \<and> unat (length_m r) = min (unat (length_m other)) (unat MAXLEN)
          \<and> take (unat (length_m r)) (data_m r) = take (unat (length_m r)) (data_m other)
          \<and> drop (unat (length_m r)) (data_m r) = drop (unat (length_m r)) (data_m this)
          \<and> length (data_m r) = unat MAXLEN \<and> length_fs r \<le> capacity MAXLEN"
    if "length (data_m other) = unat MAXLEN2 \<and> length_m other \<le> MAXLEN2
          \<and> ASSERT_ND nd (length_m other < MAXLEN2)"
    using assign_fixed_result [OF assms, of other MAXLEN2 nd] that by (simp add: capacity_def length_fs_def)
  moreover have "\<exists>r. FixedString_copy nd MAXLEN this MAXLEN2 other = Some r
          \<and> unat (length_m r) = min (unat (length_m other)) (unat MAXLEN)
          \<and> take (unat (length_m r)) (data_m r) = take (unat (length_m r)) (data_m other)
          \<and> (if MAXLEN2 = MAXLEN then data_m r = data_m other
              else drop (unat (length_m r)) (data_m r) = drop (unat (length_m r)) (data_m this))
          \<and> length (data_m r) = unat MAXLEN \<and> length_fs r \<le> capacity MAXLEN"
    if "length (data_m other) = unat MAXLEN2 \<and> length_m other \<le> MAXLEN2
          \<and> (MAXLEN2 = MAXLEN \<or> ASSERT_ND nd (length_m other < MAXLEN2))"
    using FixedString_copy_result [OF assms, of other MAXLEN2 nd] that
    by (simp add: capacity_def length_fs_def)
  moreover have "\<forall>r. FixedString_copy nd MAXLEN this MAXLEN2 other = Some r
          \<longrightarrow> length_fs r \<le> capacity MAXLEN"
    if "length_m other \<le> MAXLEN2"
    using results_within_capacity(5) [OF that] by blast
  moreover have "\<forall>r. assign_string MAXLEN this str = Some r
            \<or> assign_ptr MAXLEN this buf len = Some r
            \<or> FixedString_cstr MAXLEN this cstr = Some r
            \<or> assign_fixed nd MAXLEN this MAXLEN2 other = Some r
          \<longrightarrow> length_fs r \<le> capacity MAXLEN"
    using results_within_capacity(1-4) by blast
  ultimately show ?thesis
    by (simp add: FixedString_string_def FixedString_ptr_def)
qed

theorem FixedString_length_within_capacity_witness:
  "length (data_m \<lparr>length_m = 9, data_m = ''????''\<rparr>) = unat (4 :: 32 word)
   \<and> min (unat (5 :: 32 word)) (unat (4 :: 32 word)) \<le> length ''hello''
   \<and> length ''hello'' < (2 :: nat) ^ 32
   \<and> length (data_m \<lparr>length_m = 3, data_m = ''abcdefgh''\<rparr>) = unat (8 :: 32 word)
   \<and> length_m \<lparr>length_m = 3, data_m = ''abcdefgh''\<rparr> \<le> (8 :: 32 word)
   \<and> ASSERT_ND True (length_m \<lparr>length_m = 3, data_m = ''abcdefgh''\<rparr> < (8 :: 32 word))
   \<and> (\<exists>r. assign_string 4 \<lparr>length_m = 9, data_m = ''????''\<rparr> ''hello'' = Some r
        \<and> unat (length_m r) = 4 \<and> take 4 (data_m r) = ''hell'')
   \<and> (\<exists>r. assign_ptr 4 \<lparr>length_m = 9, data_m = ''????''\<rparr> ''hello'' 5 = Some r
        \<and> unat (length_m r) = 4 \<and> take 4 (data_m r) = ''hell'')
   \<and> (\<exists>r. FixedString_cstr 4 \<lparr>length_m = 9, data_m = ''????''\<rparr> ''hello'' = Some r
        \<and> unat (length_m r) = 4 \<and> take 4 (data_m r) = ''hell'')
   \<and> (\<exists>r. assign_fixed True 4 \<lparr>length_m = 9, data_m = ''????''\<rparr> 8
              \<lparr>length_m = 3, data_m = ''abcdefgh''\<rparr> = Some r
        \<and> unat (length_m r) = 3 \<and> take 3 (data_m r) = ''abc'')
   \<and> (\<exists>r. FixedString_copy True 4 \<lparr>length_m = 9, data_m = ''????''\<rparr> 8
              \<lparr>length_m = 3, data_m = ''abcdefgh''\<rparr> = Some r
        \<and> unat (length_m r) = 3 \<and> take 3 (data_m r) = ''abc'' \<and> drop 3 (data_m r) = ''?'')
   \<and> length (data_m \<lparr>length_m = 4, data_m = ''abcd''\<rparr>) = unat (4 :: 32 word)
   \<and> length_m \<lparr>length_m = 4, data_m = ''abcd''\<rparr> \<le> (4 :: 32 word)
   \<and> (\<exists>r. FixedString_copy True 4 \<lparr>length_m = 9, data_m = ''????''\<rparr> 4
              \<lparr>length_m = 4, data_m = ''abcd''\<rparr> = Some r
        \<and> unat (length_m r) = 4 \<and> data_m r = ''abcd'')
   \<and> (\<exists>r. FixedString_copy True 4 \<lparr>length_m = 9, data_m = ''????''\<rparr> 4
              \<lparr>length_m = 3, data_m = ''abcd''\<rparr> = Some r
        \<and> unat (length_m r) = 3 \<and> data_m r = ''abcd'')"
proof -
  have a: "length (data_m \<lparr>length_m = 9, data_m = ''????''\<rparr>) = unat (4 :: 32 word)"
    by simp
  have b: "min (unat (5 :: 32 word)) (unat (4 :: 32 word)) \<le> length ''hello''"
    "length ''hello'' < (2 :: nat) ^ 32"
    "length (data_m \<lparr>length_m = 3, data_m = ''abcdefgh''\<rparr>) = unat (8 :: 32 word)"
    "length_m \<lparr>length_m = 3, data_m = ''abcdefgh''\<rparr> \<le> (8 :: 32 word)"
    "ASSERT_ND True (length_m \<lparr>length_m = 3, data_m = ''abcdefgh''\<rparr> < (8 :: 32 word))"
    by (simp_all add: ASSERT_ND_def)
  have c: "length (data_m \<lparr>length_m = 4, data_m = ''abcd''\<rparr>) = unat (4 :: 32 word)"
    "length_m \<lparr>length_m = 4, data_m = ''abcd''\<rparr> \<le> (4 :: 32 word)"
    "length (data_m \<lparr>length_m = 3, data_m = ''abcd''\<rparr>) = unat (4 :: 32 word)"
    "length_m \<lparr>length_m = 3, data_m = ''abcd''\<rparr> \<le> (4 :: 32 word)"
    by simp_all
  from FixedString_length_within_capacity [OF a,
      of "''hello''" "''hello''" 5 "\<lparr>length_m = 3, data_m = ''abcdefgh''\<rparr>" 8 True "''hello''"]
    FixedString_length_within_capacity [OF a,
      of "''hello''" "''hello''" 5 "\<lparr>length_m = 4, data_m = ''abcd''\<rparr>" 4 True "''hello''"]
    FixedString_length_within_capacity [OF a,
      of "''hello''" "''hello''" 5 "\<lparr>length_m = 3, data_m = ''abcd''\<rparr>" 4 True "''hello''"]
    a b c show ?thesis
    by (auto simp add: min_def)
qed

end
